theory Spec2Isabelle
  imports Main "HOL-Library.Sublist"
begin

section \<open>The update pipe of the imapsql storage module\<close>

text \<open>
  A shallow embedding of \<^verbatim>\<open>internal/storage/imapsql/imapsql.go\<close>: the fields of
  \<^verbatim>\<open>Storage\<close> that take part in update distribution, the operations
  \<^verbatim>\<open>EnableUpdatePipe\<close>, \<^verbatim>\<open>Updates\<close> and \<^verbatim>\<open>Close\<close>, and the goroutine that
  \<^verbatim>\<open>EnableUpdatePipe\<close> starts. The sequential part of \<^verbatim>\<open>EnableUpdatePipe\<close> is a
  function on the state; the goroutine, \<^verbatim>\<open>Close\<close>, the storage engine and the readers of
  the update channel run interleaved, one atomic action at a time.
\<close>

subsection \<open>Values and channels\<close>

text \<open>
  A Go \<^verbatim>\<open>error\<close> is its message; the \<^verbatim>\<open>nil\<close> error is \<open>None\<close>. A call either returns
  or panics.
\<close>

type_synonym error = string

datatype outcome = Return "error option" | Panicked string

text \<open>
  Modelled from the spec: the declaration of \<^verbatim>\<open>updatepipe.BackendMode\<close> is not part of
  the file. The source names \<^verbatim>\<open>ModeReplicate\<close> and \<^verbatim>\<open>ModePush\<close>; the specification
  lists the modes Push-only, Listen-only and Replicate.
\<close>

datatype BackendMode = ModeReplicate | ModePush | ModeListen

text \<open>
  A channel of capacity \<open>chan_cap\<close> with the values waiting in its buffer. The type
  parameter is the type of non-nil values; a receive from a closed, drained channel
  yields \<^verbatim>\<open>nil\<close>. Capacities are natural numbers: a channel of \<^verbatim>\<open>backend.Update\<close>
  (an interface value, two machine words) cannot be allocated with a capacity for which
  \<^verbatim>\<open>cap(upds)*2\<close> leaves the range of \<^verbatim>\<open>int\<close>.
\<close>

record 'a chan =
  chan_buf :: "'a list"
  chan_cap :: nat
  chan_closed :: bool

definition make_chan :: "nat \<Rightarrow> 'a chan" where
  "make_chan n = \<lparr>chan_buf = [], chan_cap = n, chan_closed = False\<rparr>"

text \<open>
  The two channels a \<^verbatim>\<open>Storage\<close> can hand out: the one of the backend
  (\<^verbatim>\<open>store.Back.Updates()\<close>) and the one allocated by \<^verbatim>\<open>EnableUpdatePipe\<close>.
\<close>

datatype chan_ref = BackChan | WrappedChan

subsection \<open>The update pipe\<close>

text \<open>
  Modelled from the spec: package \<^verbatim>\<open>updatepipe\<close> (the interface \<^verbatim>\<open>P\<close> and its
  implementation \<^verbatim>\<open>UnixSockPipe\<close>) is not part of the file. Of the pipe the model keeps
  the two fields the source sets and what the contract of section 4.1 makes observable:
  the sink handed to a successful \<^verbatim>\<open>Listen\<close>, whether \<^verbatim>\<open>InitPush\<close> has succeeded and
  whether \<^verbatim>\<open>Close\<close> has released it. Whether \<^verbatim>\<open>Listen\<close> and \<^verbatim>\<open>InitPush\<close> fail is
  decided by the transport, so it is a parameter, as is the derivation of the socket
  path (SHA-1, hex encoding, the runtime directory).
\<close>

record UnixSockPipe =
  SockPath :: string
  PipeDebug :: bool
  listen_sink :: "chan_ref option"
  push_ready :: bool
  released :: bool

record pipe_env =
  sock_path :: "string \<Rightarrow> string"
  listen_result :: "error option"
  init_push_result :: "error option"

definition Listen :: "pipe_env \<Rightarrow> chan_ref \<Rightarrow> UnixSockPipe \<Rightarrow> error option \<times> UnixSockPipe" where
  "Listen env sink p =
     (case listen_result env of
        Some e \<Rightarrow> (Some e, p)
      | None \<Rightarrow> (None, p\<lparr>listen_sink := Some sink\<rparr>))"

definition InitPush :: "pipe_env \<Rightarrow> UnixSockPipe \<Rightarrow> error option \<times> UnixSockPipe" where
  "InitPush env p =
     (case init_push_result env of
        Some e \<Rightarrow> (Some e, p)
      | None \<Rightarrow> (None, p\<lparr>push_ready := True\<rparr>))"

text \<open>The result of one \<^verbatim>\<open>store.updPipe.Push(u)\<close>: it returns nil or an error, or panics.\<close>

datatype push_result = PushOk | PushErr error | PushPanic string

subsection \<open>The storage object and the running system\<close>

text \<open>
  The fields of \<^verbatim>\<open>Storage\<close> read or written by the three operations.
  \<open>updPushStop\<close> tells whether the stop channel has been allocated.
\<close>

record Storage =
  driver :: string
  dsn :: "string list"
  LogDebug :: bool
  updates :: "chan_ref option"
  updPipe :: "UnixSockPipe option"
  updPushStop :: bool

text \<open>
  The program counter of the goroutine started by \<^verbatim>\<open>EnableUpdatePipe\<close>. The deferred
  function carries the value of the panic that started it, if any.
\<close>

datatype 'u pc =
    NotStarted
  | AtSelect
  | AwaitStop
  | AtPush 'u
  | AtSend 'u
  | DeferAck "string option"
  | DeferClose "string option"
  | DeferRecover "string option"
  | Exited
  | Crashed string

text \<open>The program counter of the caller of \<^verbatim>\<open>Close\<close>.\<close>

datatype close_pc =
    NotCalled
  | AtBackClose
  | AtStopSend
  | AtAckRecv
  | AtPipeClose
  | CloseReturned

datatype log_entry = LogPushFailed error | LogPanic string

text \<open>
  The whole system: the storage object, the two update channels, the goroutine with the
  \<^verbatim>\<open>mode\<close> its closure captured, the caller of \<^verbatim>\<open>Close\<close>, the log, and histories of
  what has happened so far: the updates the storage engine has emitted, the updates
  given to \<^verbatim>\<open>Push\<close>, the updates the goroutine has sent on \<^verbatim>\<open>wrapped\<close>, the updates the
  pipe's listener has sent on it, and the updates readers have received from it.

  Two components keep what the operations leave behind outside the fields of
  \<^verbatim>\<open>Storage\<close>. \<open>back_taken\<close> tells whether \<^verbatim>\<open>store.Back.Updates()\<close> has been called:
  the backend is created with \<^verbatim>\<open>LazyUpdatesInit\<close>, so the first call is the one that
  sets up its update channel. \<open>dropped\<close> lists the pipes that \<^verbatim>\<open>store.updPipe\<close> has
  ceased to refer to without a call of their \<^verbatim>\<open>Close\<close>, each as it was when dropped;
  nothing in \<^verbatim>\<open>Storage\<close> reaches them any more.
\<close>

record 'u sys =
  store :: Storage
  back_taken :: bool
  dropped :: "UnixSockPipe list"
  back_updates :: "'u chan"
  wrapped :: "'u chan option"
  task :: "'u pc"
  task_mode :: BackendMode
  closer :: close_pc
  logged :: "log_entry list"
  emitted :: "'u list"
  pushed :: "'u list"
  forwarded :: "'u list"
  injected :: "'u list"
  consumed :: "'u list"

subsection \<open>EnableUpdatePipe and Updates\<close>

text \<open>\<^verbatim>\<open>strings.Join\<close>.\<close>

fun join_with :: "string \<Rightarrow> string list \<Rightarrow> string" where
  "join_with sep [] = []"
| "join_with sep [x] = x"
| "join_with sep (x # y # ys) = x @ sep @ join_with sep (y # ys)"

definition new_pipe :: "pipe_env \<Rightarrow> Storage \<Rightarrow> UnixSockPipe" where
  "new_pipe env st =
     \<lparr>SockPath = sock_path env (join_with '' '' (dsn st)),
      PipeDebug = LogDebug st,
      listen_sink = None, push_ready = False, released = False\<rparr>"

definition set_updPipe :: "UnixSockPipe option \<Rightarrow> 'u sys \<Rightarrow> 'u sys" where
  "set_updPipe p s = s\<lparr>store := (store s)\<lparr>updPipe := p\<rparr>\<rparr>"

text \<open>
  \<^verbatim>\<open>store.updPipe = nil\<close> on the two error paths: the field is reset and the pipe \<open>p\<close>
  it referred to, in the state the calls made on it have left it in, is dropped without
  \<^verbatim>\<open>Close\<close>.
\<close>

definition drop_pipe :: "UnixSockPipe \<Rightarrow> 'u sys \<Rightarrow> 'u sys" where
  "drop_pipe p s = (set_updPipe None s)\<lparr>dropped := dropped s @ [p]\<rparr>"

text \<open>A pipe whose receive side is active: \<^verbatim>\<open>Listen\<close> has succeeded and \<^verbatim>\<open>Close\<close> has not run.\<close>

definition receiving :: "UnixSockPipe \<Rightarrow> bool" where
  "receiving p = (listen_sink p \<noteq> None \<and> \<not> released p)"

text \<open>
  The last step of \<^verbatim>\<open>EnableUpdatePipe\<close>: allocate the stop channel, start the
  goroutine at its \<^verbatim>\<open>select\<close> and publish \<^verbatim>\<open>wrapped\<close> as \<^verbatim>\<open>store.updates\<close>.
\<close>

definition start_task :: "BackendMode \<Rightarrow> UnixSockPipe \<Rightarrow> 'u chan \<Rightarrow> 'u sys \<Rightarrow> 'u sys" where
  "start_task mode p w s =
     s\<lparr>store := (store s)\<lparr>updPipe := Some p, updPushStop := True, updates := Some WrappedChan\<rparr>,
       wrapped := Some w, task := AtSelect, task_mode := mode\<rparr>"

text \<open>
  \<^verbatim>\<open>EnableUpdatePipe\<close>, statement by statement: the two guards; \<^verbatim>\<open>store.Back.Updates()\<close>;
  the switch on the driver, which stores the new pipe in \<^verbatim>\<open>store.updPipe\<close>; the
  allocation of \<^verbatim>\<open>wrapped\<close>; \<^verbatim>\<open>Listen\<close> in \<^verbatim>\<open>ModeReplicate\<close>; \<^verbatim>\<open>InitPush\<close>; the start of
  the goroutine. Each of the two failures resets \<^verbatim>\<open>store.updPipe\<close> and returns the error;
  the pipe is not closed there.
\<close>

definition EnableUpdatePipe :: "pipe_env \<Rightarrow> BackendMode \<Rightarrow> 'u sys \<Rightarrow> outcome \<times> 'u sys" where
  "EnableUpdatePipe env mode s =
     (if updPipe (store s) \<noteq> None then (Return None, s)
      else if updates (store s) \<noteq> None then
        (Panicked ''imapsql: EnableUpdatePipe called after Updates'', s)
      else
        let s0 = s\<lparr>back_taken := True\<rparr> in
        if driver (store s) \<noteq> ''sqlite3'' then
          (Return (Some ''imapsql: driver does not have an update pipe implementation''), s0)
        else
          let p0 = new_pipe env (store s);
              s1 = set_updPipe (Some p0) s0;
              w = make_chan (chan_cap (back_updates s) * 2);
              (lerr, p1) = (if mode = ModeReplicate then Listen env WrappedChan p0 else (None, p0))
          in (case lerr of
                Some e \<Rightarrow> (Return (Some e), drop_pipe p1 s1)
              | None \<Rightarrow>
                  (case InitPush env p1 of
                     (Some e, p2) \<Rightarrow> (Return (Some e), drop_pipe p2 s1)
                   | (None, p2) \<Rightarrow> (Return None, start_task mode p2 w s1))))"

definition Updates :: "'u sys \<Rightarrow> chan_ref \<times> 'u sys" where
  "Updates s =
     (case updates (store s) of
        Some c \<Rightarrow> (c, s)
      | None \<Rightarrow>
          (BackChan, s\<lparr>store := (store s)\<lparr>updates := Some BackChan\<rparr>, back_taken := True\<rparr>))"

text \<open>A storage object after \<^verbatim>\<open>Init\<close>: no pipe, no update channel handed out, nothing running.\<close>

definition fresh :: "string \<Rightarrow> string list \<Rightarrow> nat \<Rightarrow> 'u sys" where
  "fresh drv ds c =
     \<lparr>store = \<lparr>driver = drv, dsn = ds, LogDebug = False, updates = None, updPipe = None,
               updPushStop = False\<rparr>,
      back_taken = False, dropped = [],
      back_updates = make_chan c, wrapped = None, task = NotStarted, task_mode = ModeReplicate,
      closer = NotCalled, logged = [], emitted = [], pushed = [], forwarded = [],
      injected = [], consumed = []\<rparr>"

definition ok_env :: pipe_env where
  "ok_env = \<lparr>sock_path = (\<lambda>d. ''sql-'' @ d @ ''.sock''), listen_result = None,
             init_push_result = None\<rparr>"

subsection \<open>The goroutine, Close and their environment\<close>

text \<open>
  One atomic action of the running system. The goroutine's actions follow its text line
  by line; a communication on the unbuffered channel \<^verbatim>\<open>store.updPushStop\<close> is one
  action of both parties. A send on a channel either puts the value into the buffer or,
  when a receiver is waiting on the empty buffer, hands it over directly (the only way
  to send on a channel of capacity 0).
  \<^item> \<open>Emit u\<close>, \<open>EmitDirect u\<close>: the storage engine sends \<open>u\<close> on the backend's channel,
    into the buffer or directly to the goroutine waiting in its \<^verbatim>\<open>select\<close>;
  \<^item> \<open>SelUpdate\<close>: the \<^verbatim>\<open>select\<close> takes \<^verbatim>\<open>u := <-upds\<close>, a buffered value or the
    \<^verbatim>\<open>nil\<close> of the closed channel;
  \<^item> \<open>SelStop\<close>: the \<^verbatim>\<open>select\<close> takes \<^verbatim>\<open><-store.updPushStop\<close>, meeting the send of
    \<^verbatim>\<open>Close\<close>; \<open>RecvStop\<close>: the same receive after a \<^verbatim>\<open>nil\<close> update;
  \<^item> \<open>Push r\<close>: \<^verbatim>\<open>store.updPipe.Push(u)\<close> with result \<open>r\<close>, and the logging of its error;
  \<^item> \<open>Enqueue\<close>, \<open>EnqueueDirect\<close>: \<^verbatim>\<open>wrapped <- u\<close>;
  \<^item> \<open>Ack\<close>, \<open>CloseWrapped\<close>, \<open>Recover\<close>: the three statements of the deferred function;
    \<open>Ack\<close> meets the receive of \<^verbatim>\<open>Close\<close>;
  \<^item> \<open>CallClose\<close>, \<open>BackClose\<close>, \<open>PipeClose\<close>: \<^verbatim>\<open>Close\<close> is entered, calls
    \<^verbatim>\<open>store.Back.Close()\<close>, calls \<^verbatim>\<open>store.updPipe.Close()\<close> and returns;
  \<^item> \<open>Read\<close>: a reader receives from \<^verbatim>\<open>wrapped\<close>;
  \<^item> \<open>Inject u\<close>, \<open>InjectDirect u\<close>: the listener of the pipe sends \<open>u\<close> on its sink.
\<close>

datatype 'u action =
    Emit 'u
  | EmitDirect 'u
  | SelUpdate
  | SelStop
  | RecvStop
  | Push push_result
  | Enqueue
  | EnqueueDirect
  | Ack
  | CloseWrapped
  | Recover
  | CallClose
  | BackClose
  | PipeClose
  | Read
  | Inject 'u
  | InjectDirect 'u

text \<open>After \<^verbatim>\<open>Push\<close>: \<^verbatim>\<open>if mode != updatepipe.ModePush { wrapped <- u }\<close>, then the loop again.\<close>

definition after_push :: "BackendMode \<Rightarrow> 'u \<Rightarrow> 'u pc" where
  "after_push mode u = (if mode \<noteq> ModePush then AtSend u else AtSelect)"

definition listening :: "'u sys \<Rightarrow> bool" where
  "listening s =
     (case updPipe (store s) of
        None \<Rightarrow> False
      | Some p \<Rightarrow> listen_sink p = Some WrappedChan \<and> \<not> released p)"

definition wrapped_buf :: "'u sys \<Rightarrow> 'u list" where
  "wrapped_buf s = (case wrapped s of None \<Rightarrow> [] | Some w \<Rightarrow> chan_buf w)"

text \<open>
  \<open>exec a s\<close> is the state after action \<open>a\<close>, or \<open>None\<close> when \<open>a\<close> cannot happen in
  \<open>s\<close> (the party is elsewhere in its text, or blocked). \<^verbatim>\<open>store.Back.Close()\<close> closes
  the backend's update channel, which is what the goroutine's \<^verbatim>\<open>u == nil\<close> branch
  expects; the storage engine emits nothing on a closed channel.
\<close>

fun exec :: "'u action \<Rightarrow> 'u sys \<Rightarrow> 'u sys option" where
  "exec (Emit u) s =
     (let c = back_updates s in
      if \<not> chan_closed c \<and> length (chan_buf c) < chan_cap c
      then Some (s\<lparr>back_updates := c\<lparr>chan_buf := chan_buf c @ [u]\<rparr>, emitted := emitted s @ [u]\<rparr>)
      else None)"
| "exec (EmitDirect u) s =
     (let c = back_updates s in
      if task s = AtSelect \<and> \<not> chan_closed c \<and> chan_buf c = []
      then Some (s\<lparr>task := AtPush u, emitted := emitted s @ [u]\<rparr>)
      else None)"
| "exec SelUpdate s =
     (let c = back_updates s in
      if task s = AtSelect then
        (case chan_buf c of
           u # rest \<Rightarrow> Some (s\<lparr>back_updates := c\<lparr>chan_buf := rest\<rparr>, task := AtPush u\<rparr>)
         | [] \<Rightarrow> if chan_closed c then Some (s\<lparr>task := AwaitStop\<rparr>) else None)
      else None)"
| "exec SelStop s =
     (if task s = AtSelect \<and> closer s = AtStopSend \<and> updPushStop (store s)
      then Some (s\<lparr>task := DeferAck None, closer := AtAckRecv\<rparr>)
      else None)"
| "exec RecvStop s =
     (if task s = AwaitStop \<and> closer s = AtStopSend \<and> updPushStop (store s)
      then Some (s\<lparr>task := DeferAck None, closer := AtAckRecv\<rparr>)
      else None)"
| "exec (Push r) s =
     (case task s of
        AtPush u \<Rightarrow>
          (case r of
             PushOk \<Rightarrow>
               Some (s\<lparr>pushed := pushed s @ [u], task := after_push (task_mode s) u\<rparr>)
           | PushErr e \<Rightarrow>
               Some (s\<lparr>pushed := pushed s @ [u], logged := logged s @ [LogPushFailed e],
                       task := after_push (task_mode s) u\<rparr>)
           | PushPanic m \<Rightarrow> Some (s\<lparr>task := DeferAck (Some m)\<rparr>))
      | _ \<Rightarrow> None)"
| "exec Enqueue s =
     (case task s of
        AtSend u \<Rightarrow>
          (case wrapped s of
             None \<Rightarrow> None
           | Some w \<Rightarrow>
               if chan_closed w then Some (s\<lparr>task := DeferAck (Some ''send on closed channel'')\<rparr>)
               else if length (chan_buf w) < chan_cap w
               then Some (s\<lparr>wrapped := Some (w\<lparr>chan_buf := chan_buf w @ [u]\<rparr>),
                            forwarded := forwarded s @ [u], task := AtSelect\<rparr>)
               else None)
      | _ \<Rightarrow> None)"
| "exec EnqueueDirect s =
     (case task s of
        AtSend u \<Rightarrow>
          (case wrapped s of
             None \<Rightarrow> None
           | Some w \<Rightarrow>
               if \<not> chan_closed w \<and> chan_buf w = []
               then Some (s\<lparr>forwarded := forwarded s @ [u], consumed := consumed s @ [u],
                            task := AtSelect\<rparr>)
               else None)
      | _ \<Rightarrow> None)"
| "exec Ack s =
     (case task s of
        DeferAck p \<Rightarrow>
          if closer s = AtAckRecv \<and> updPushStop (store s)
          then Some (s\<lparr>task := DeferClose p, closer := AtPipeClose\<rparr>)
          else None
      | _ \<Rightarrow> None)"
| "exec CloseWrapped s =
     (case task s of
        DeferClose p \<Rightarrow>
          (case wrapped s of
             None \<Rightarrow> None
           | Some w \<Rightarrow>
               if chan_closed w then Some (s\<lparr>task := Crashed ''close of closed channel''\<rparr>)
               else Some (s\<lparr>wrapped := Some (w\<lparr>chan_closed := True\<rparr>), task := DeferRecover p\<rparr>))
      | _ \<Rightarrow> None)"
| "exec Recover s =
     (case task s of
        DeferRecover p \<Rightarrow>
          (case p of
             None \<Rightarrow> Some (s\<lparr>task := Exited\<rparr>)
           | Some m \<Rightarrow> Some (s\<lparr>logged := logged s @ [LogPanic m], task := Exited\<rparr>))
      | _ \<Rightarrow> None)"
| "exec CallClose s =
     (if closer s = NotCalled then Some (s\<lparr>closer := AtBackClose\<rparr>) else None)"
| "exec BackClose s =
     (if closer s = AtBackClose
      then Some (s\<lparr>back_updates := (back_updates s)\<lparr>chan_closed := True\<rparr>,
                   closer := (if updPipe (store s) \<noteq> None then AtStopSend else CloseReturned)\<rparr>)
      else None)"
| "exec PipeClose s =
     (if closer s = AtPipeClose
      then Some (s\<lparr>store := (store s)\<lparr>updPipe :=
                     map_option (\<lambda>p. p\<lparr>released := True\<rparr>) (updPipe (store s))\<rparr>,
                   closer := CloseReturned\<rparr>)
      else None)"
| "exec Read s =
     (case wrapped s of
        None \<Rightarrow> None
      | Some w \<Rightarrow>
          (case chan_buf w of
             [] \<Rightarrow> None
           | u # rest \<Rightarrow>
               Some (s\<lparr>wrapped := Some (w\<lparr>chan_buf := rest\<rparr>), consumed := consumed s @ [u]\<rparr>)))"
| "exec (Inject u) s =
     (case wrapped s of
        None \<Rightarrow> None
      | Some w \<Rightarrow>
          if listening s \<and> \<not> chan_closed w \<and> length (chan_buf w) < chan_cap w
          then Some (s\<lparr>wrapped := Some (w\<lparr>chan_buf := chan_buf w @ [u]\<rparr>),
                       injected := injected s @ [u]\<rparr>)
          else None)"
| "exec (InjectDirect u) s =
     (case wrapped s of
        None \<Rightarrow> None
      | Some w \<Rightarrow>
          if listening s \<and> \<not> chan_closed w \<and> chan_buf w = []
          then Some (s\<lparr>injected := injected s @ [u], consumed := consumed s @ [u]\<rparr>)
          else None)"

text \<open>A schedule is a list of actions; \<open>run\<close> performs it, or fails where an action cannot happen.\<close>

fun run :: "'u action list \<Rightarrow> 'u sys \<Rightarrow> 'u sys option" where
  "run [] s = Some s"
| "run (a # as) s = (case exec a s of None \<Rightarrow> None | Some s' \<Rightarrow> run as s')"


text \<open>The goroutine is inside its loop.\<close>

definition looping :: "'u sys \<Rightarrow> bool" where
  "looping s =
     (case task s of AtSelect \<Rightarrow> True | AwaitStop \<Rightarrow> True | AtPush u \<Rightarrow> True
      | AtSend u \<Rightarrow> True | _ \<Rightarrow> False)"


text \<open>The state after a successful \<^verbatim>\<open>EnableUpdatePipe(mode)\<close> on a fresh sqlite3 storage.\<close>

definition enabled :: "BackendMode \<Rightarrow> nat \<Rightarrow> 'u sys" where
  "enabled mode c = snd (EnableUpdatePipe ok_env mode (fresh ''sqlite3'' [''maddy.db''] c))"

subsection \<open>Invariants of the running system\<close>




text \<open>
  The goroutine keeps its mode; \<^verbatim>\<open>wrapped\<close> exists, holds no more than its capacity and
  is open while the goroutine is in its loop.
\<close>

definition wrapped_inv :: "BackendMode \<Rightarrow> 'u sys \<Rightarrow> bool" where
  "wrapped_inv mode s =
     (task_mode s = mode \<and>
      (case wrapped s of
         None \<Rightarrow> False
       | Some w \<Rightarrow> length (chan_buf w) \<le> chan_cap w \<and> (looping s \<longrightarrow> \<not> chan_closed w)))"

text \<open>
  The goroutine has not met \<^verbatim>\<open>Close\<close> on \<^verbatim>\<open>store.updPushStop\<close>: it is in its loop, or a
  panic has sent it to the first statement of its deferred function.
\<close>

fun before_stop :: "'u pc \<Rightarrow> bool" where
  "before_stop AtSelect = True"
| "before_stop AwaitStop = True"
| "before_stop (AtPush u) = True"
| "before_stop (AtSend u) = True"
| "before_stop (DeferAck (Some m)) = True"
| "before_stop _ = False"

text \<open>\<^verbatim>\<open>Close\<close> has not got past its send on \<^verbatim>\<open>store.updPushStop\<close>.\<close>

fun stop_pending :: "close_pc \<Rightarrow> bool" where
  "stop_pending NotCalled = True"
| "stop_pending AtBackClose = True"
| "stop_pending AtStopSend = True"
| "stop_pending _ = False"

text \<open>The log has an entry written by the \<^verbatim>\<open>recover\<close> branch of the deferred function.\<close>

definition panic_logged :: "'u sys \<Rightarrow> bool" where
  "panic_logged s = list_ex (\<lambda>e. case e of LogPanic m \<Rightarrow> True | _ \<Rightarrow> False) (logged s)"

text \<open>
  The storage has a pipe; as long as the goroutine has not met \<^verbatim>\<open>Close\<close>, \<^verbatim>\<open>Close\<close> has
  not got past its stop request; the panic is logged only by a goroutine that has exited.
\<close>

definition handshake_inv :: "'u sys \<Rightarrow> bool" where
  "handshake_inv s =
     (updPipe (store s) \<noteq> None \<and>
      (before_stop (task s) \<longrightarrow> stop_pending (closer s)) \<and>
      (panic_logged s \<longrightarrow> task s = Exited))"

text \<open>
  In \<^verbatim>\<open>ModePush\<close> the goroutine is never at \<^verbatim>\<open>wrapped <- u\<close>, the pipe does not listen, and
  \<^verbatim>\<open>wrapped\<close> has never held anything.
\<close>

definition push_only_inv :: "'u sys \<Rightarrow> bool" where
  "push_only_inv s =
     (task_mode s = ModePush \<and> (case task s of AtSend u \<Rightarrow> False | _ \<Rightarrow> True) \<and>
      \<not> listening s \<and> forwarded s = [] \<and> injected s = [] \<and> consumed s = [] \<and>
      wrapped_buf s = [])"

section \<open>Activation\<close>

lemmas enable_defs = EnableUpdatePipe_def fresh_def ok_env_def Let_def new_pipe_def
  set_updPipe_def drop_pipe_def Listen_def InitPush_def start_task_def make_chan_def

text \<open>
  What a successful activating call has done: the state is exactly the one
  \<open>start_task\<close> builds, with a pipe that listens on \<^verbatim>\<open>wrapped\<close> only in
  \<^verbatim>\<open>ModeReplicate\<close> and is always ready to push.
\<close>

lemma enable_success:
  assumes "EnableUpdatePipe env mode s = (Return None, s')" "updPipe (store s) = None"
  shows "\<exists>p. s' = start_task mode p (make_chan (chan_cap (back_updates s) * 2))
                  (s\<lparr>back_taken := True\<rparr>)
           \<and> SockPath p = sock_path env (join_with '' '' (dsn (store s)))
           \<and> listen_sink p = (if mode = ModeReplicate then Some WrappedChan else None)
           \<and> push_ready p \<and> \<not> released p
           \<and> (mode = ModeReplicate \<longrightarrow> listen_result env = None) \<and> init_push_result env = None"
  using assms
  by (auto simp: EnableUpdatePipe_def Let_def set_updPipe_def drop_pipe_def start_task_def
      Listen_def InitPush_def new_pipe_def make_chan_def
      split: if_splits option.splits prod.splits)

lemma enable_returns_nil_has_pipe:
  assumes "EnableUpdatePipe env mode s = (Return None, s')"
  shows "updPipe (store s') \<noteq> None"
proof (cases "updPipe (store s) = None")
  case True
  from enable_success[OF assms True] show ?thesis by (auto simp: start_task_def)
next
  case False
  with assms show ?thesis by (simp add: EnableUpdatePipe_def)
qed

subsection \<open>A second activation\<close>

text \<open>
  Claim C3, as the code has it. Once a call of \<^verbatim>\<open>EnableUpdatePipe\<close> has returned
  \<^verbatim>\<open>nil\<close>, every further call, with any mode and whatever the transport would answer,
  returns \<^verbatim>\<open>nil\<close> again and leaves the whole state as it is: no new pipe, no new
  goroutine, the same update channel. The second call does not fail.
\<close>

theorem second_enable_no_effect:
  assumes "EnableUpdatePipe env mode s = (Return None, s1)"
  shows "EnableUpdatePipe env' mode' s1 = (Return None, s1)"
  using enable_returns_nil_has_pipe[OF assms] by (simp add: EnableUpdatePipe_def)

theorem second_enable_no_effect_witness:
  "EnableUpdatePipe ok_env ModePush (enabled ModeReplicate 4 :: nat sys)
     = (Return None, enabled ModeReplicate 4)"
  using second_enable_no_effect[of ok_env ModeReplicate "fresh ''sqlite3'' [''maddy.db''] 4 :: nat sys"
      "enabled ModeReplicate 4" ok_env ModePush]
  by (simp add: enabled_def enable_defs)

text \<open>
  Claim C3 as stated asks for an error from the second call. On a fresh sqlite3 storage
  the first call returns \<^verbatim>\<open>nil\<close>, and so does the second.
\<close>

theorem second_enable_returns_nil:
  "fst (EnableUpdatePipe ok_env ModeReplicate (fresh ''sqlite3'' [''maddy.db''] 4 :: nat sys))
     = Return None
   \<and> fst (EnableUpdatePipe ok_env ModeReplicate (enabled ModeReplicate 4 :: nat sys))
     = Return None"
  by (simp add: enabled_def enable_defs)

subsection \<open>Activation after Updates\<close>

text \<open>
  Claim C4, as the code has it. On a storage without a pipe, \<^verbatim>\<open>EnableUpdatePipe\<close>
  called after \<^verbatim>\<open>Updates\<close> panics with the message
  \<^verbatim>\<open>imapsql: EnableUpdatePipe called after Updates\<close>, for every mode and every driver,
  and changes nothing. It does not return an error.
\<close>

theorem enable_after_updates:
  assumes "updPipe (store s) = None"
  shows "EnableUpdatePipe env mode (snd (Updates s))
           = (Panicked ''imapsql: EnableUpdatePipe called after Updates'', snd (Updates s))"
  using assms by (simp add: EnableUpdatePipe_def Updates_def split: option.splits)

theorem enable_after_updates_witness:
  "updPipe (store (fresh ''mysql'' [] 0 :: nat sys)) = None
   \<and> EnableUpdatePipe ok_env ModePush (snd (Updates (fresh ''mysql'' [] 0 :: nat sys)))
       = (Panicked ''imapsql: EnableUpdatePipe called after Updates'',
          snd (Updates (fresh ''mysql'' [] 0)))"
  using enable_after_updates[of "fresh ''mysql'' [] 0 :: nat sys" ok_env ModePush]
  by (simp add: fresh_def)

text \<open>
  Claim C4 as stated asks for a returned error. On a fresh sqlite3 storage whose
  \<^verbatim>\<open>Updates\<close> has been called, the call panics.
\<close>

theorem enable_after_updates_panics:
  "fst (EnableUpdatePipe ok_env ModeReplicate
          (snd (Updates (fresh ''sqlite3'' [''maddy.db''] 4 :: nat sys))))
     = Panicked ''imapsql: EnableUpdatePipe called after Updates''"
  by (simp add: Updates_def enable_defs)

subsection \<open>The capacity of the wrapped channel\<close>

text \<open>
  Claim C5. A successful activating call allocates \<^verbatim>\<open>wrapped\<close> open, empty and with
  twice the capacity of the backend's update channel, so at least twice that capacity and
  exactly 8 when it is 4, and publishes it as \<^verbatim>\<open>store.updates\<close>.
\<close>

theorem wrapped_capacity:
  assumes "EnableUpdatePipe env mode s = (Return None, s')" "updPipe (store s) = None"
  shows "\<exists>w. wrapped s' = Some w \<and> chan_cap w = 2 * chan_cap (back_updates s)
           \<and> 2 * chan_cap (back_updates s) \<le> chan_cap w
           \<and> (chan_cap (back_updates s) = 4 \<longrightarrow> chan_cap w = 8)
           \<and> chan_buf w = [] \<and> \<not> chan_closed w \<and> updates (store s') = Some WrappedChan"
  using enable_success[OF assms] by (auto simp: start_task_def make_chan_def)

theorem wrapped_capacity_witness:
  "EnableUpdatePipe ok_env ModeReplicate (fresh ''sqlite3'' [''maddy.db''] 4 :: nat sys)
     = (Return None, enabled ModeReplicate 4)
   \<and> map_option chan_cap (wrapped (enabled ModeReplicate 4 :: nat sys)) = Some 8"
  using wrapped_capacity[of ok_env ModeReplicate "fresh ''sqlite3'' [''maddy.db''] 4 :: nat sys"
      "enabled ModeReplicate 4"]
  by (simp add: enabled_def enable_defs)

subsection \<open>Which capabilities of the pipe are activated\<close>

text \<open>
  Claim C6, as the code has it. After a successful activating call the pipe listens
  (with \<^verbatim>\<open>wrapped\<close> as its sink) if and only if the mode is \<^verbatim>\<open>ModeReplicate\<close>, and
  \<^verbatim>\<open>InitPush\<close> has succeeded on it whatever the mode.
\<close>

theorem listen_iff_replicate:
  assumes "EnableUpdatePipe env mode s = (Return None, s')" "updPipe (store s) = None"
  shows "\<exists>p. updPipe (store s') = Some p
           \<and> (listen_sink p = Some WrappedChan) = (mode = ModeReplicate)
           \<and> (listen_sink p = None) = (mode \<noteq> ModeReplicate)
           \<and> push_ready p"
  using enable_success[OF assms] by (auto simp: start_task_def)

theorem listen_iff_replicate_witness:
  "EnableUpdatePipe ok_env ModePush (fresh ''sqlite3'' [''maddy.db''] 4 :: nat sys)
     = (Return None, enabled ModePush 4)
   \<and> map_option listen_sink (updPipe (store (enabled ModePush 4 :: nat sys))) = Some None
   \<and> map_option push_ready (updPipe (store (enabled ModePush 4 :: nat sys))) = Some True"
  using listen_iff_replicate[of ok_env ModePush "fresh ''sqlite3'' [''maddy.db''] 4 :: nat sys"
      "enabled ModePush 4"]
  by (simp add: enabled_def enable_defs)

text \<open>
  Claim C6 as stated has the pipe listen in the Listen-only mode as well. The call
  compares the mode with \<^verbatim>\<open>ModeReplicate\<close> alone: activation in the Listen-only mode
  succeeds and the pipe has been given no sink.
\<close>

theorem listen_only_does_not_listen:
  "fst (EnableUpdatePipe ok_env ModeListen (fresh ''sqlite3'' [''maddy.db''] 4 :: nat sys))
     = Return None
   \<and> map_option listen_sink (updPipe (store (enabled ModeListen 4 :: nat sys))) = Some None
   \<and> map_option push_ready (updPipe (store (enabled ModeListen 4 :: nat sys))) = Some True"
  by (simp add: enabled_def enable_defs)

subsection \<open>Failure of the activation\<close>

text \<open>
  Claim C10 asks that a failing \<^verbatim>\<open>EnableUpdatePipe\<close> leaves the node as if replication had
  never been enabled. What the three error paths (a driver other than sqlite3, a failing
  \<^verbatim>\<open>Listen\<close> in \<^verbatim>\<open>ModeReplicate\<close>, a failing \<^verbatim>\<open>InitPush\<close>) do on a storage without a
  pipe whose \<^verbatim>\<open>Updates\<close> has not been called: each returns an error with
  \<^verbatim>\<open>Storage\<close> as it was, so \<^verbatim>\<open>store.updPipe\<close> and \<^verbatim>\<open>store.updates\<close> are nil and a later
  \<^verbatim>\<open>Updates\<close> returns the channel of the backend, and no goroutine has been started. But
  \<^verbatim>\<open>store.Back.Updates()\<close> has been called, and with the sqlite3 driver the pipe has been
  dropped without \<^verbatim>\<open>Close\<close>; when \<^verbatim>\<open>InitPush\<close> fails in \<^verbatim>\<open>ModeReplicate\<close> the dropped
  pipe is one whose \<^verbatim>\<open>Listen\<close> has succeeded, so its receive side stays active with
  nothing left to close it.
\<close>

theorem enable_failure_effects:
  assumes "updPipe (store s) = None" "updates (store s) = None"
    and "driver (store s) \<noteq> ''sqlite3''
         \<or> (mode = ModeReplicate \<and> listen_result env \<noteq> None)
         \<or> init_push_result env \<noteq> None"
  shows "\<exists>e s'. EnableUpdatePipe env mode s = (Return (Some e), s')
           \<and> s' = s\<lparr>back_taken := True, dropped := dropped s'\<rparr>
           \<and> updPipe (store s') = None \<and> updates (store s') = None
           \<and> fst (Updates s') = BackChan
           \<and> (if driver (store s) \<noteq> ''sqlite3'' then dropped s' = dropped s
               else \<exists>p. dropped s' = dropped s @ [p] \<and> \<not> released p
                      \<and> receiving p = (mode = ModeReplicate \<and> listen_result env = None))"
  using assms
  by (auto simp: EnableUpdatePipe_def Let_def set_updPipe_def drop_pipe_def Listen_def InitPush_def
      Updates_def receiving_def new_pipe_def split: if_splits option.splits prod.splits)

text \<open>
  \<^verbatim>\<open>ModeReplicate\<close> on a fresh sqlite3 storage, \<^verbatim>\<open>Listen\<close> succeeds and \<^verbatim>\<open>InitPush\<close>
  fails: the error is returned, \<^verbatim>\<open>store.updPipe\<close> is nil, and the one dropped pipe is
  receiving into \<^verbatim>\<open>wrapped\<close>.
\<close>

theorem enable_failure_effects_witness:
  "fst (EnableUpdatePipe (ok_env\<lparr>init_push_result := Some ''bind: address already in use''\<rparr>)
          ModeReplicate (fresh ''sqlite3'' [''maddy.db''] 4 :: nat sys))
     = Return (Some ''bind: address already in use'')
   \<and> (let s' = snd (EnableUpdatePipe
                      (ok_env\<lparr>init_push_result := Some ''bind: address already in use''\<rparr>)
                      ModeReplicate (fresh ''sqlite3'' [''maddy.db''] 4 :: nat sys))
      in updPipe (store s') = None \<and> updates (store s') = None \<and> back_taken s'
         \<and> map listen_sink (dropped s') = [Some WrappedChan]
         \<and> map receiving (dropped s') = [True]
         \<and> s' \<noteq> fresh ''sqlite3'' [''maddy.db''] 4)"
  using enable_failure_effects[of "fresh ''sqlite3'' [''maddy.db''] 4 :: nat sys" ModeReplicate
      "ok_env\<lparr>init_push_result := Some ''bind: address already in use''\<rparr>"]
  by (simp add: enable_defs receiving_def)

section \<open>The running system\<close>

subsection \<open>Close while updates are buffered\<close>

text \<open>
  Claim C2 asks that \<^verbatim>\<open>Close\<close> returns only after every buffered update has been
  transmitted. With one update in the buffer of the backend's channel, \<^verbatim>\<open>Close\<close> closes
  the backend and offers its stop request; the \<^verbatim>\<open>select\<close> of the goroutine then has two
  ready cases and may take the stop request. The handshake completes and \<^verbatim>\<open>Close\<close>
  returns with the update still in the buffer, neither pushed nor forwarded.
\<close>

theorem close_leaves_buffered_update:
  "map_option (\<lambda>s. (closer s, task s, chan_buf (back_updates s), emitted s, pushed s,
                    forwarded s, consumed s))
     (run [Emit 1, CallClose, BackClose, SelStop, Ack, CloseWrapped, Recover, PipeClose]
        (enabled ModeReplicate 4 :: nat sys))
   = Some (CloseReturned, Exited, [1], [1], [], [], [])"
  by (simp add: enabled_def enable_defs)

subsection \<open>Single steps\<close>

text \<open>Every way in which an action can happen, with the state it leads to.\<close>

lemma exec_elim [consumes 1, case_names Emit EmitDirect SelValue SelNil SelStop RecvStop
    PushOk PushErr PushPanic Enqueue EnqueueClosed EnqueueDirect Ack CloseWrapped CloseTwice
    RecoverNone RecoverSome CallClose BackClose PipeClose Read Inject InjectDirect]:
  assumes "exec a s = Some s'"
  obtains
    u where "a = Emit u" "\<not> chan_closed (back_updates s)"
      "length (chan_buf (back_updates s)) < chan_cap (back_updates s)"
      "s' = s\<lparr>back_updates := (back_updates s)\<lparr>chan_buf := chan_buf (back_updates s) @ [u]\<rparr>,
              emitted := emitted s @ [u]\<rparr>"
  | u where "a = EmitDirect u" "task s = AtSelect" "\<not> chan_closed (back_updates s)"
      "chan_buf (back_updates s) = []" "s' = s\<lparr>task := AtPush u, emitted := emitted s @ [u]\<rparr>"
  | u rest where "a = SelUpdate" "task s = AtSelect" "chan_buf (back_updates s) = u # rest"
      "s' = s\<lparr>back_updates := (back_updates s)\<lparr>chan_buf := rest\<rparr>, task := AtPush u\<rparr>"
  | "a = SelUpdate" "task s = AtSelect" "chan_buf (back_updates s) = []"
      "chan_closed (back_updates s)" "s' = s\<lparr>task := AwaitStop\<rparr>"
  | "a = SelStop" "task s = AtSelect" "closer s = AtStopSend" "updPushStop (store s)"
      "s' = s\<lparr>task := DeferAck None, closer := AtAckRecv\<rparr>"
  | "a = RecvStop" "task s = AwaitStop" "closer s = AtStopSend" "updPushStop (store s)"
      "s' = s\<lparr>task := DeferAck None, closer := AtAckRecv\<rparr>"
  | u where "a = Push PushOk" "task s = AtPush u"
      "s' = s\<lparr>pushed := pushed s @ [u], task := after_push (task_mode s) u\<rparr>"
  | u e where "a = Push (PushErr e)" "task s = AtPush u"
      "s' = s\<lparr>pushed := pushed s @ [u], logged := logged s @ [LogPushFailed e],
              task := after_push (task_mode s) u\<rparr>"
  | u m where "a = Push (PushPanic m)" "task s = AtPush u" "s' = s\<lparr>task := DeferAck (Some m)\<rparr>"
  | u w where "a = Enqueue" "task s = AtSend u" "wrapped s = Some w" "\<not> chan_closed w"
      "length (chan_buf w) < chan_cap w"
      "s' = s\<lparr>wrapped := Some (w\<lparr>chan_buf := chan_buf w @ [u]\<rparr>),
              forwarded := forwarded s @ [u], task := AtSelect\<rparr>"
  | u w where "a = Enqueue" "task s = AtSend u" "wrapped s = Some w" "chan_closed w"
      "s' = s\<lparr>task := DeferAck (Some ''send on closed channel'')\<rparr>"
  | u w where "a = EnqueueDirect" "task s = AtSend u" "wrapped s = Some w" "\<not> chan_closed w"
      "chan_buf w = []"
      "s' = s\<lparr>forwarded := forwarded s @ [u], consumed := consumed s @ [u], task := AtSelect\<rparr>"
  | p where "a = Ack" "task s = DeferAck p" "closer s = AtAckRecv" "updPushStop (store s)"
      "s' = s\<lparr>task := DeferClose p, closer := AtPipeClose\<rparr>"
  | p w where "a = CloseWrapped" "task s = DeferClose p" "wrapped s = Some w" "\<not> chan_closed w"
      "s' = s\<lparr>wrapped := Some (w\<lparr>chan_closed := True\<rparr>), task := DeferRecover p\<rparr>"
  | p w where "a = CloseWrapped" "task s = DeferClose p" "wrapped s = Some w" "chan_closed w"
      "s' = s\<lparr>task := Crashed ''close of closed channel''\<rparr>"
  | "a = Recover" "task s = DeferRecover None" "s' = s\<lparr>task := Exited\<rparr>"
  | m where "a = Recover" "task s = DeferRecover (Some m)"
      "s' = s\<lparr>logged := logged s @ [LogPanic m], task := Exited\<rparr>"
  | "a = CallClose" "closer s = NotCalled" "s' = s\<lparr>closer := AtBackClose\<rparr>"
  | "a = BackClose" "closer s = AtBackClose"
      "s' = s\<lparr>back_updates := (back_updates s)\<lparr>chan_closed := True\<rparr>,
              closer := (if updPipe (store s) \<noteq> None then AtStopSend else CloseReturned)\<rparr>"
  | "a = PipeClose" "closer s = AtPipeClose"
      "s' = s\<lparr>store := (store s)\<lparr>updPipe :=
                map_option (\<lambda>p. p\<lparr>released := True\<rparr>) (updPipe (store s))\<rparr>,
              closer := CloseReturned\<rparr>"
  | w u rest where "a = Read" "wrapped s = Some w" "chan_buf w = u # rest"
      "s' = s\<lparr>wrapped := Some (w\<lparr>chan_buf := rest\<rparr>), consumed := consumed s @ [u]\<rparr>"
  | u w where "a = Inject u" "wrapped s = Some w" "listening s" "\<not> chan_closed w"
      "length (chan_buf w) < chan_cap w"
      "s' = s\<lparr>wrapped := Some (w\<lparr>chan_buf := chan_buf w @ [u]\<rparr>), injected := injected s @ [u]\<rparr>"
  | u w where "a = InjectDirect u" "wrapped s = Some w" "listening s" "\<not> chan_closed w"
      "chan_buf w = []"
      "s' = s\<lparr>injected := injected s @ [u], consumed := consumed s @ [u]\<rparr>"
proof (cases a)
  case (Emit u)
  with assms that(1) show ?thesis by (simp add: Let_def split: if_splits)
next
  case (EmitDirect u)
  with assms that(2) show ?thesis by (simp add: Let_def split: if_splits)
next
  case SelUpdate
  with assms that(3,4) show ?thesis
    by (cases "chan_buf (back_updates s)") (simp_all add: Let_def split: if_splits)
next
  case SelStop
  with assms that(5) show ?thesis by (simp split: if_splits)
next
  case RecvStop
  with assms that(6) show ?thesis by (simp split: if_splits)
next
  case (Push r)
  from assms Push obtain u where t: "task s = AtPush u"
    by (cases "task s") simp_all
  show ?thesis
  proof (cases r)
    case PushOk
    from assms Push PushOk t
    have "s' = s\<lparr>pushed := pushed s @ [u], task := after_push (task_mode s) u\<rparr>" by simp
    with Push PushOk t show ?thesis by (intro that(7)) simp_all
  next
    case (PushErr e)
    from assms Push PushErr t
    have "s' = s\<lparr>pushed := pushed s @ [u], logged := logged s @ [LogPushFailed e],
                  task := after_push (task_mode s) u\<rparr>" by simp
    with Push PushErr t show ?thesis by (intro that(8)) simp_all
  next
    case (PushPanic m)
    from assms Push PushPanic t have "s' = s\<lparr>task := DeferAck (Some m)\<rparr>" by simp
    with Push PushPanic t show ?thesis by (intro that(9)) simp_all
  qed
next
  case Enqueue
  with assms that(10,11) show ?thesis
    by (cases "task s"; cases "wrapped s") (simp_all split: if_splits)
next
  case EnqueueDirect
  with assms that(12) show ?thesis
    by (cases "task s"; cases "wrapped s") (simp_all split: if_splits)
next
  case Ack
  with assms that(13) show ?thesis by (cases "task s") (simp_all split: if_splits)
next
  case CloseWrapped
  with assms that(14,15) show ?thesis
    by (cases "task s"; cases "wrapped s") (simp_all split: if_splits)
next
  case Recover
  with assms that(16,17) show ?thesis
    by (cases "task s") (simp_all split: option.splits)
next
  case CallClose
  with assms that(18) show ?thesis by (simp split: if_splits)
next
  case BackClose
  with assms that(19) show ?thesis by (simp split: if_splits)
next
  case PipeClose
  with assms that(20) show ?thesis by (simp split: if_splits)
next
  case Read
  with assms that(21) show ?thesis
    by (cases "wrapped s") (simp_all split: list.splits)
next
  case (Inject u)
  with assms that(22) show ?thesis by (cases "wrapped s") (simp_all split: if_splits)
next
  case (InjectDirect u)
  with assms that(23) show ?thesis by (cases "wrapped s") (simp_all split: if_splits)
qed

lemma run_invariant:
  assumes step: "\<And>a s s'. exec a s = Some s' \<Longrightarrow> P s \<Longrightarrow> P s'"
  shows "run as s = Some s' \<Longrightarrow> P s \<Longrightarrow> P s'"
proof (induction as arbitrary: s)
  case Nil
  then show ?case by simp
next
  case (Cons a as)
  from Cons.prems(1) obtain s1 where s1: "exec a s = Some s1" "run as s1 = Some s'"
    by (auto split: option.splits)
  from step[OF s1(1) Cons.prems(2)] have "P s1" .
  with Cons.IH[OF s1(2)] show ?case .
qed






lemma exec_wrapped_inv:
  assumes "exec a s = Some s'" "wrapped_inv mode s"
  shows "wrapped_inv mode s'"
  using assms(1)
  by (cases rule: exec_elim)
     (use assms(2) in \<open>auto simp: wrapped_inv_def looping_def after_push_def
        split: option.splits\<close>)

lemma exec_handshake_inv:
  assumes "exec a s = Some s'" "handshake_inv s"
  shows "handshake_inv s'"
  using assms(1)
  by (cases rule: exec_elim)
     (use assms(2) in \<open>auto simp: handshake_inv_def panic_logged_def after_push_def\<close>)

lemma exec_push_only_inv:
  assumes "exec a s = Some s'" "push_only_inv s"
  shows "push_only_inv s'"
  using assms(1)
  by (cases rule: exec_elim)
     (use assms(2) in \<open>auto simp: push_only_inv_def listening_def wrapped_buf_def after_push_def
        split: option.splits\<close>)

lemma exec_stuck:
  assumes "exec a s = Some s'" "handshake_inv s" "task s = DeferAck (Some m)"
  shows "task s' = DeferAck (Some m) \<and> logged s' = logged s"
  using assms(1)
  by (cases rule: exec_elim) (use assms(2,3) in \<open>auto simp: handshake_inv_def\<close>)

lemma exec_at_send:
  assumes "exec a s = Some s'" "task s = AtSend u" "wrapped s = Some w" "\<not> chan_closed w"
  shows "(task s' = AtSend u \<and> forwarded s' = forwarded s) \<or>
         (task s' = AtSelect \<and> forwarded s' = forwarded s @ [u])"
  using assms(1)
  by (cases rule: exec_elim) (use assms(2-) in auto)

lemma run_stuck:
  "run bs s = Some s' \<Longrightarrow> handshake_inv s \<Longrightarrow> task s = DeferAck (Some m) \<Longrightarrow>
     handshake_inv s' \<and> task s' = DeferAck (Some m) \<and> logged s' = logged s"
proof (induction bs arbitrary: s)
  case Nil
  then show ?case by simp
next
  case (Cons a bs)
  from Cons.prems(1) obtain s1 where s1: "exec a s = Some s1" "run bs s1 = Some s'"
    by (auto split: option.splits)
  from exec_stuck[OF s1(1) Cons.prems(2,3)] exec_handshake_inv[OF s1(1) Cons.prems(2)]
  have "handshake_inv s1" "task s1 = DeferAck (Some m)" "logged s1 = logged s" by simp_all
  with Cons.IH[OF s1(2)] show ?case by simp
qed

lemma send_possible:
  assumes "task s = AtSend u" "wrapped s = Some w" "\<not> chan_closed w"
    "length (chan_buf w) \<le> chan_cap w"
  shows "\<exists>bs s'. run bs s = Some s' \<and> task s' = AtSelect \<and> forwarded s' = forwarded s @ [u]
           \<and> logged s' = logged s"
proof (cases "length (chan_buf w) < chan_cap w")
  case True
  with assms have "\<exists>s'. run [Enqueue] s = Some s' \<and> task s' = AtSelect
      \<and> forwarded s' = forwarded s @ [u] \<and> logged s' = logged s" by simp
  then show ?thesis by blast
next
  case False
  show ?thesis
  proof (cases "chan_buf w")
    case Nil
    with assms have "\<exists>s'. run [EnqueueDirect] s = Some s' \<and> task s' = AtSelect
        \<and> forwarded s' = forwarded s @ [u] \<and> logged s' = logged s" by simp
    then show ?thesis by blast
  next
    case (Cons x rest)
    with assms have "\<exists>s'. run [Read, Enqueue] s = Some s' \<and> task s' = AtSelect
        \<and> forwarded s' = forwarded s @ [u] \<and> logged s' = logged s" by simp
    then show ?thesis by blast
  qed
qed


subsection \<open>The system after activation\<close>

lemma enabled_state:
  "task (enabled mode c) = AtSelect" "task_mode (enabled mode c) = mode"
  "closer (enabled mode c) = NotCalled" "updPipe (store (enabled mode c)) \<noteq> None"
  "wrapped (enabled mode c) = Some (make_chan (c * 2))" "back_updates (enabled mode c) = make_chan c"
  "emitted (enabled mode c) = []" "pushed (enabled mode c) = []" "forwarded (enabled mode c) = []"
  "injected (enabled mode c) = []" "consumed (enabled mode c) = []" "logged (enabled mode c) = []"
  "listening (enabled mode c) = (mode = ModeReplicate)"
  by (cases "mode = ModeReplicate"; simp add: enabled_def enable_defs listening_def)+




lemma enabled_wrapped_inv: "wrapped_inv mode (enabled mode c)"
  by (simp add: wrapped_inv_def enabled_state make_chan_def)

lemma enabled_handshake_inv: "handshake_inv (enabled mode c)"
  by (simp add: handshake_inv_def enabled_state panic_logged_def)

lemma enabled_push_only_inv: "push_only_inv (enabled ModePush c)"
  by (simp add: push_only_inv_def enabled_state wrapped_buf_def make_chan_def)

subsection \<open>Forwarding in ModeReplicate\<close>



subsection \<open>A failing Push\<close>

text \<open>
  Claim C7. In every state the system can reach after activation in which the goroutine
  is about to push an update \<open>u\<close>, a \<^verbatim>\<open>Push\<close> that returns an error is logged and the
  goroutine goes on: in \<^verbatim>\<open>ModePush\<close> straight back to its \<^verbatim>\<open>select\<close>; in every other mode
  to \<^verbatim>\<open>wrapped <- u\<close>, from where some schedule takes it back to its \<^verbatim>\<open>select\<close> with
  \<open>u\<close> sent on \<^verbatim>\<open>wrapped\<close>, and where every action that can happen either leaves it
  waiting to send \<open>u\<close> or is that send. It does not panic and does not leave its loop.
\<close>

theorem push_error_still_forwards:
  assumes "run as (enabled mode c) = Some s" "task s = AtPush u"
  shows "\<exists>s1. exec (Push (PushErr e)) s = Some s1
           \<and> logged s1 = logged s @ [LogPushFailed e] \<and> pushed s1 = pushed s @ [u]
           \<and> forwarded s1 = forwarded s
           \<and> (if mode = ModePush then task s1 = AtSelect
               else task s1 = AtSend u
                    \<and> (\<exists>bs s2. run bs s1 = Some s2 \<and> task s2 = AtSelect
                          \<and> forwarded s2 = forwarded s @ [u] \<and> logged s2 = logged s1)
                    \<and> (\<forall>a s2. exec a s1 = Some s2 \<longrightarrow>
                          (task s2 = AtSend u \<and> forwarded s2 = forwarded s)
                          \<or> (task s2 = AtSelect \<and> forwarded s2 = forwarded s @ [u])))"
proof -
  have w: "wrapped_inv mode s"
    by (rule run_invariant[where P = "wrapped_inv mode", OF exec_wrapped_inv assms(1)])
       (simp_all add: enabled_wrapped_inv)
  with assms(2) obtain w where ww: "task_mode s = mode" "wrapped s = Some w"
      "\<not> chan_closed w" "length (chan_buf w) \<le> chan_cap w"
    by (auto simp: wrapped_inv_def looping_def split: option.splits)
  let ?s1 = "s\<lparr>pushed := pushed s @ [u], logged := logged s @ [LogPushFailed e],
                task := after_push mode u\<rparr>"
  from assms(2) ww(1) have e1: "exec (Push (PushErr e)) s = Some ?s1" by simp
  show ?thesis
  proof (cases "mode = ModePush")
    case True
    with e1 show ?thesis by (simp add: after_push_def)
  next
    case False
    then have t1: "task ?s1 = AtSend u" by (simp add: after_push_def)
    from ww have w1: "wrapped ?s1 = Some w" by simp
    from send_possible[OF t1 w1 ww(3,4)]
    have p: "\<exists>bs s2. run bs ?s1 = Some s2 \<and> task s2 = AtSelect
        \<and> forwarded s2 = forwarded s @ [u] \<and> logged s2 = logged ?s1" by simp
    have q: "\<forall>a s2. exec a ?s1 = Some s2 \<longrightarrow>
        (task s2 = AtSend u \<and> forwarded s2 = forwarded s)
        \<or> (task s2 = AtSelect \<and> forwarded s2 = forwarded s @ [u])"
    proof (intro allI impI)
      fix a s2
      assume "exec a ?s1 = Some s2"
      from exec_at_send[OF this t1 w1 ww(3)]
      show "(task s2 = AtSend u \<and> forwarded s2 = forwarded s)
        \<or> (task s2 = AtSelect \<and> forwarded s2 = forwarded s @ [u])" by simp
    qed
    from False e1 t1 p q show ?thesis by simp
  qed
qed

theorem push_error_still_forwards_witness:
  "map_option task (run [EmitDirect 7] (enabled ModeReplicate 4 :: nat sys)) = Some (AtPush 7)
   \<and> map_option (\<lambda>s. (task s, logged s, pushed s, forwarded s, wrapped_buf s))
     (run [EmitDirect 7, Push (PushErr ''broken pipe''), Enqueue]
        (enabled ModeReplicate 4 :: nat sys))
   = Some (AtSelect, [LogPushFailed ''broken pipe''], [7], [7], [7])"
  using push_error_still_forwards[of "[EmitDirect 7]" ModeReplicate 4 _ "7 :: nat" "''broken pipe''"]
  by (simp add: enabled_def enable_defs after_push_def wrapped_buf_def)

subsection \<open>ModePush\<close>

text \<open>
  Claim C8. After activation in \<^verbatim>\<open>ModePush\<close>, in every state the system can reach, under
  any schedule: the goroutine has sent nothing on \<^verbatim>\<open>wrapped\<close>, it is not at
  \<^verbatim>\<open>wrapped <- u\<close> and the send cannot happen, and \<^verbatim>\<open>wrapped\<close> is empty and nothing has been
  received from it; the updates it takes are pushed.
\<close>

theorem push_only_never_enqueues:
  assumes "run as (enabled ModePush c) = Some s"
  shows "forwarded s = [] \<and> (\<forall>u. task s \<noteq> AtSend u)
         \<and> exec Enqueue s = None \<and> exec EnqueueDirect s = None
         \<and> wrapped_buf s = [] \<and> consumed s = [] \<and> injected s = []"
proof -
  have "push_only_inv s"
    by (rule run_invariant[where P = push_only_inv, OF exec_push_only_inv assms])
       (simp_all add: enabled_push_only_inv)
  then show ?thesis by (cases "task s") (simp_all add: push_only_inv_def)
qed

theorem push_only_never_enqueues_witness:
  "map_option (\<lambda>s. (task s, emitted s, pushed s, forwarded s, wrapped_buf s, consumed s))
     (run [Emit 1, Emit 2, SelUpdate, Push PushOk, SelUpdate, Push (PushErr ''broken pipe'')]
        (enabled ModePush 4 :: nat sys))
   = Some (AtSelect, [1, 2], [1, 2], [], [], [])"
  using push_only_never_enqueues[of "[Emit 1, Emit 2, SelUpdate, Push PushOk, SelUpdate,
      Push (PushErr ''broken pipe'')]" 4 _ ]
  by (simp add: enabled_def enable_defs after_push_def wrapped_buf_def)

subsection \<open>A panic in the goroutine\<close>

text \<open>
  Claim C9 asks that after a panic in the goroutine the panic is logged, the handshake
  with \<^verbatim>\<open>Close\<close> completes and \<^verbatim>\<open>Close\<close> returns. The deferred function starts with
  \<^verbatim>\<open>store.updPushStop <- struct{}{}\<close>, and \<^verbatim>\<open>Close\<close> starts its handshake with a send on
  the same unbuffered channel; after a panic nothing receives from it. So in every state
  the system can reach after activation in which the goroutine has panicked, whatever
  happens next, under any schedule: the goroutine stays at the first statement of its
  deferred function, \<^verbatim>\<open>Close\<close> does not get past its stop request and does not return,
  nothing more is logged and the panic is not.
\<close>

theorem panic_blocks_close:
  assumes "run as (enabled mode c) = Some s" "task s = DeferAck (Some m)"
    and "run bs s = Some s'"
  shows "task s' = DeferAck (Some m) \<and> stop_pending (closer s') \<and> closer s' \<noteq> CloseReturned
         \<and> logged s' = logged s \<and> \<not> panic_logged s'
         \<and> exec Ack s' = None \<and> exec CloseWrapped s' = None \<and> exec Recover s' = None
         \<and> exec PipeClose s' = None"
proof -
  have h: "handshake_inv s"
    by (rule run_invariant[where P = handshake_inv, OF exec_handshake_inv assms(1)])
       (simp_all add: enabled_handshake_inv)
  from run_stuck[OF assms(3) h assms(2)]
  have "handshake_inv s'" "task s' = DeferAck (Some m)" "logged s' = logged s" by simp_all
  then show ?thesis
    by (cases "closer s'") (simp_all add: handshake_inv_def)
qed

theorem panic_blocks_close_witness:
  "map_option task
     (run [EmitDirect 7, Push (PushPanic ''nil dereference'')]
        (enabled ModeReplicate 4 :: nat sys))
   = Some (DeferAck (Some ''nil dereference''))
   \<and> map_option (\<lambda>s. (task s, closer s, logged s))
     (run [EmitDirect 7, Push (PushPanic ''nil dereference''), CallClose, BackClose]
        (enabled ModeReplicate 4 :: nat sys))
   = Some (DeferAck (Some ''nil dereference''), AtStopSend, [])
   \<and> map_option (\<lambda>s. (exec SelStop s, exec RecvStop s, exec Ack s))
     (run [EmitDirect 7, Push (PushPanic ''nil dereference''), CallClose, BackClose]
        (enabled ModeReplicate 4 :: nat sys))
   = Some (None, None, None)"
  using panic_blocks_close[of "[EmitDirect 7, Push (PushPanic ''nil dereference'')]"
      ModeReplicate 4 _ "''nil dereference''" "[CallClose, BackClose]"]
  by (simp add: enabled_def enable_defs)

end
